theory Spec2Isabelle
  imports Complex_Main
begin

section \<open>Numbers of the runtime\<close>

text \<open>
  The class \<open>Estatistica\<close> of \<open>main.py\<close> computes with two kinds of numbers.
  \<open>calculo_amostral\<close> works on Python floats, whose division by zero raises
  \<open>ZeroDivisionError\<close> and whose power raises \<open>OverflowError\<close>. Every other method works on
  the \<open>float64\<close> scalars that \<open>numpy\<close> and \<open>scipy\<close> hand back, whose division by zero
  raises nothing and gives an infinity or NaN.

  A finite number is a \<open>real\<close>, and the three special values of \<open>float64\<close> are kept, since
  the program can produce them from finite data. For the Python floats of
  \<open>calculo_amostral\<close> the rounding of each operation is a parameter and overflow is
  modelled. The routines of \<open>numpy\<close> and \<open>scipy\<close> are taken with exact finite arithmetic:
  the rounding error of their sums, the sign of zero and overflow are outside the model,
  so a statement about them holds of the code up to that rounding error.
\<close>

datatype npfloat = Finite real | PInf | NInf | NaN

datatype error = NameError | ZeroDivisionError | OverflowError | ValueError

text \<open>Python's \<open>round\<close> and numpy's \<open>rint\<close>: to the nearest integer, a tie to the even one.\<close>

definition round_half_even :: "real \<Rightarrow> int" where
  "round_half_even x =
     (let f = \<lfloor>x\<rfloor>; d = x - of_int f
      in if d < 1 / 2 then f
         else if 1 / 2 < d then f + 1
         else if even f then f else f + 1)"

text \<open>\<open>round(v, n)\<close> on a \<open>float64\<close>: scale by \<open>10 ** n\<close>, \<open>rint\<close>, scale back.\<close>

definition round_dec :: "nat \<Rightarrow> real \<Rightarrow> real" where
  "round_dec n x = of_int (round_half_even (x * 10 ^ n)) / 10 ^ n"

fun np_round :: "npfloat \<Rightarrow> nat \<Rightarrow> npfloat" where
  "np_round (Finite x) n = Finite (round_dec n x)"
| "np_round v n = v"

text \<open>Arithmetic of \<open>float64\<close> scalars; only the cases of IEEE 754 that need no sign of zero.\<close>

fun np_neg :: "npfloat \<Rightarrow> npfloat" where
  "np_neg (Finite x) = Finite (- x)"
| "np_neg PInf = NInf"
| "np_neg NInf = PInf"
| "np_neg NaN = NaN"

fun np_add :: "npfloat \<Rightarrow> npfloat \<Rightarrow> npfloat" where
  "np_add (Finite x) (Finite y) = Finite (x + y)"
| "np_add NaN _ = NaN"
| "np_add _ NaN = NaN"
| "np_add PInf NInf = NaN"
| "np_add NInf PInf = NaN"
| "np_add PInf _ = PInf"
| "np_add NInf _ = NInf"
| "np_add _ w = w"

definition np_sub :: "npfloat \<Rightarrow> npfloat \<Rightarrow> npfloat" where
  "np_sub v w = np_add v (np_neg w)"

fun np_sgn :: "npfloat \<Rightarrow> int" where
  "np_sgn (Finite x) = (if 0 < x then 1 else if x < 0 then - 1 else 0)"
| "np_sgn PInf = 1"
| "np_sgn NInf = - 1"
| "np_sgn NaN = 0"

definition signed_inf :: "int \<Rightarrow> npfloat" where
  "signed_inf s = (if 0 < s then PInf else if s < 0 then NInf else NaN)"

fun np_mul :: "npfloat \<Rightarrow> npfloat \<Rightarrow> npfloat" where
  "np_mul (Finite x) (Finite y) = Finite (x * y)"
| "np_mul NaN _ = NaN"
| "np_mul _ NaN = NaN"
| "np_mul v w = signed_inf (np_sgn v * np_sgn w)"

fun np_div :: "npfloat \<Rightarrow> npfloat \<Rightarrow> npfloat" where
  "np_div (Finite x) (Finite y) =
     (if y = 0 then signed_inf (np_sgn (Finite x)) else Finite (x / y))"
| "np_div NaN _ = NaN"
| "np_div _ NaN = NaN"
| "np_div (Finite x) _ = Finite 0"
| "np_div v (Finite y) = signed_inf (np_sgn v * (if y < 0 then - 1 else 1))"
| "np_div _ _ = NaN"

fun np_abs :: "npfloat \<Rightarrow> npfloat" where
  "np_abs (Finite x) = Finite \<bar>x\<bar>"
| "np_abs NaN = NaN"
| "np_abs _ = PInf"

text \<open>Comparisons: every comparison with NaN is false.\<close>

fun np_lt :: "npfloat \<Rightarrow> npfloat \<Rightarrow> bool" where
  "np_lt (Finite x) (Finite y) = (x < y)"
| "np_lt NaN _ = False"
| "np_lt _ NaN = False"
| "np_lt _ NInf = False"
| "np_lt PInf _ = False"
| "np_lt _ _ = True"

definition np_gt :: "npfloat \<Rightarrow> npfloat \<Rightarrow> bool" where
  "np_gt v w = np_lt w v"

fun np_eq :: "npfloat \<Rightarrow> npfloat \<Rightarrow> bool" where
  "np_eq NaN _ = False"
| "np_eq _ NaN = False"
| "np_eq v w = (v = w)"


fun np_sqrt :: "npfloat \<Rightarrow> npfloat" where
  "np_sqrt (Finite x) = (if x < 0 then NaN else Finite (sqrt x))"
| "np_sqrt PInf = PInf"
| "np_sqrt v = NaN"

subsection \<open>Arithmetic of Python floats\<close>

text \<open>
  \<open>calculo_amostral\<close> computes with Python floats. Each operation rounds its exact result
  to a \<open>float64\<close>; the rounding is the parameter \<open>fl\<close> of the operations below, of which
  the theorems assume at most that it keeps 0. A rounded result beyond the largest
  \<open>float64\<close> overflows: to an infinity in a product, sum or quotient, to an
  \<open>OverflowError\<close> in a power and in the conversion of an integer. A zero divisor raises
  \<open>ZeroDivisionError\<close>, whatever the dividend.
\<close>

definition max_float :: real where
  "max_float = (2 - 1 / 2 ^ 52) * 2 ^ 1023"

definition bind_err :: "error + 'a \<Rightarrow> ('a \<Rightarrow> error + 'b) \<Rightarrow> error + 'b" where
  "bind_err r f = (case r of Inl e \<Rightarrow> Inl e | Inr v \<Rightarrow> f v)"

definition rounded :: "(real \<Rightarrow> real) \<Rightarrow> real \<Rightarrow> npfloat" where
  "rounded fl x =
     (let y = fl x
      in if max_float < y then PInf else if y < - max_float then NInf else Finite y)"

fun py_mul :: "(real \<Rightarrow> real) \<Rightarrow> npfloat \<Rightarrow> npfloat \<Rightarrow> npfloat" where
  "py_mul fl (Finite x) (Finite y) = rounded fl (x * y)"
| "py_mul fl v w = np_mul v w"

fun py_add :: "(real \<Rightarrow> real) \<Rightarrow> npfloat \<Rightarrow> npfloat \<Rightarrow> npfloat" where
  "py_add fl (Finite x) (Finite y) = rounded fl (x + y)"
| "py_add fl v w = np_add v w"

fun py_sub :: "(real \<Rightarrow> real) \<Rightarrow> npfloat \<Rightarrow> npfloat \<Rightarrow> npfloat" where
  "py_sub fl (Finite x) (Finite y) = rounded fl (x - y)"
| "py_sub fl v w = np_sub v w"

fun py_quot :: "(real \<Rightarrow> real) \<Rightarrow> npfloat \<Rightarrow> npfloat \<Rightarrow> npfloat" where
  "py_quot fl (Finite x) (Finite y) = rounded fl (x / y)"
| "py_quot fl v w = np_div v w"

definition py_truediv :: "(real \<Rightarrow> real) \<Rightarrow> npfloat \<Rightarrow> npfloat \<Rightarrow> error + npfloat" where
  "py_truediv fl v w = (if w = Finite 0 then Inl ZeroDivisionError else Inr (py_quot fl v w))"

text \<open>\<open>x ** 2\<close> on a finite float, and the conversion of an \<open>int\<close> operand to a float.\<close>

definition py_pow2 :: "(real \<Rightarrow> real) \<Rightarrow> real \<Rightarrow> error + npfloat" where
  "py_pow2 fl x =
     (let y = fl (x * x) in if max_float < \<bar>y\<bar> then Inl OverflowError else Inr (Finite y))"

definition py_float_of_int :: "(real \<Rightarrow> real) \<Rightarrow> int \<Rightarrow> error + npfloat" where
  "py_float_of_int fl n =
     (let y = fl (of_int n) in if max_float < \<bar>y\<bar> then Inl OverflowError else Inr (Finite y))"

text \<open>
  \<open>round(x)\<close> on a float: the nearest integer, a tie to the even one; NaN and the
  infinities have no integer.
\<close>

fun py_round :: "npfloat \<Rightarrow> error + int" where
  "py_round (Finite x) = Inr (round_half_even x)"
| "py_round NaN = Inl ValueError"
| "py_round v = Inl OverflowError"

section \<open>The library routines the class calls\<close>

text \<open>
  \<open>np.mean\<close>: the sum over the count; on an empty array \<open>0 / 0\<close>, which is NaN.
\<close>

definition np_mean :: "real list \<Rightarrow> npfloat" where
  "np_mean a = np_div (Finite (sum_list a)) (Finite (real (length a)))"

text \<open>
  \<open>np.median\<close>: the middle element of the sorted array, the mean of the two middle ones
  when the count is even, NaN on an empty array.
\<close>

definition np_median :: "real list \<Rightarrow> npfloat" where
  "np_median a =
     (let s = sort a; n = length a
      in if n = 0 then NaN
         else if odd n then Finite (s ! (n div 2))
         else Finite ((s ! (n div 2 - 1) + s ! (n div 2)) / 2))"

text \<open>
  \<open>np.var\<close> and \<open>np.std\<close>: the squared deviations from the mean are summed and divided by
  \<open>max(N - ddof, 0)\<close>; \<open>ddof\<close> is 0 unless the caller passes it.
\<close>

definition np_var :: "int \<Rightarrow> real list \<Rightarrow> npfloat" where
  "np_var ddof a =
     (case np_mean a of
        Finite arrmean \<Rightarrow>
          np_div (Finite (sum_list (map (\<lambda>x. (x - arrmean) * (x - arrmean)) a)))
                 (Finite (of_int (max (int (length a) - ddof) 0)))
      | _ \<Rightarrow> NaN)"

definition np_std :: "int \<Rightarrow> real list \<Rightarrow> npfloat" where
  "np_std ddof a = np_sqrt (np_var ddof a)"

text \<open>
  \<open>np.unique(a, return_counts=True)\<close>: the distinct values in ascending order, and how often
  each occurs. \<open>argmax\<close>: the first index that holds the largest entry.
\<close>

definition np_unique :: "real list \<Rightarrow> real list \<times> nat list" where
  "np_unique a = (let vals = sort (remdups a) in (vals, map (count_list a) vals))"

fun np_argmax :: "nat list \<Rightarrow> nat" where
  "np_argmax [] = 0"
| "np_argmax (c # cs) = (if fold max cs c = c then 0 else Suc (np_argmax cs))"

text \<open>
  \<open>st.mode(a, keepdims=False)\<close>: the pair (mode, count) read off \<open>np.unique\<close> at the
  \<open>argmax\<close> of the counts; (NaN, 0) on an empty array.
\<close>

definition st_mode :: "real list \<Rightarrow> npfloat \<times> nat" where
  "st_mode a =
     (if a = [] then (NaN, 0)
      else (let (vals, cnts) = np_unique a; i = np_argmax cnts
            in (Finite (vals ! i), cnts ! i)))"

text \<open>
  \<open>st.kurtosis(a, fisher=..., bias=True)\<close>: the fourth central moment over the square of the
  second, minus 3 only when \<open>fisher\<close> is set. The library takes the array for constant, and
  returns NaN, when the second moment is at most \<open>(eps * mean)\<^sup>2\<close>, \<open>eps\<close> being the
  spacing of \<open>float64\<close> at 1; on an empty array it returns NaN as well.
\<close>

definition float_eps :: real where
  "float_eps = 1 / 2 ^ 52"

definition moment :: "nat \<Rightarrow> real \<Rightarrow> real list \<Rightarrow> real" where
  "moment k mean a = sum_list (map (\<lambda>x. (x - mean) ^ k) a) / real (length a)"

definition st_kurtosis :: "bool \<Rightarrow> real list \<Rightarrow> npfloat" where
  "st_kurtosis fisher a =
     (case np_mean a of
        Finite mean \<Rightarrow>
          (let m2 = moment 2 mean a; m4 = moment 4 mean a;
               zero = (m2 \<le> (float_eps * mean) ^ 2);
               vals = (if zero then NaN else Finite (m4 / m2 ^ 2))
           in if fisher then np_sub vals (Finite 3) else vals)
      | _ \<Rightarrow> NaN)"

section \<open>The class Estatistica\<close>

text \<open>
  The dividend \<open>confianca**2 * p * (1 - p)\<close>, which the expression of \<open>calculo_amostral\<close>
  evaluates twice.
\<close>

definition dividendo :: "(real \<Rightarrow> real) \<Rightarrow> real \<Rightarrow> real \<Rightarrow> error + npfloat" where
  "dividendo fl confianca p =
     bind_err (py_pow2 fl confianca) (\<lambda>c2.
       Inr (py_mul fl (py_mul fl c2 (Finite p)) (py_sub fl (Finite 1) (Finite p))))"

definition calculo_amostral ::
  "(real \<Rightarrow> real) \<Rightarrow> real \<Rightarrow> real \<Rightarrow> real \<Rightarrow> int \<Rightarrow> error + int" where
  "calculo_amostral fl confianca p erro N =
     bind_err (dividendo fl confianca p) (\<lambda>t1.
     bind_err (py_pow2 fl erro) (\<lambda>e1.
     bind_err (py_truediv fl t1 e1) (\<lambda>n0.
     bind_err (dividendo fl confianca p) (\<lambda>t2.
     bind_err (py_pow2 fl erro) (\<lambda>e2.
     bind_err (py_float_of_int fl N) (\<lambda>nf.
     bind_err (py_truediv fl t2 (py_mul fl e2 nf)) (\<lambda>c.
     bind_err (py_truediv fl n0 (py_add fl (Finite 1) c)) (\<lambda>q.
       py_round q))))))))"

definition media :: "real list \<Rightarrow> npfloat" where
  "media array = np_mean array"

definition mediana :: "real list \<Rightarrow> npfloat" where
  "mediana array = np_median array"

definition moda :: "real list \<Rightarrow> npfloat option" where
  "moda array = (let m = st_mode array in if 1 < snd m then Some (fst m) else None)"

definition desvio_padrao :: "real list \<Rightarrow> npfloat" where
  "desvio_padrao array = np_round (np_std 0 array) 4"

definition coef_pearson :: "real list \<Rightarrow> npfloat" where
  "coef_pearson array =
     np_div (np_mul (Finite 3) (np_sub (media array) (mediana array))) (desvio_padrao array)"

definition curtose :: "real list \<Rightarrow> npfloat" where
  "curtose array = np_round (st_kurtosis False array) 3"

text \<open>
  The labels of \<open>resumir\<close>. A string is its list of code points; the accented letters of the
  labels are below 256 and take one \<open>char\<close> each.
\<close>

definition simetrica :: string where
  "simetrica = '' - Sim'' @ [CHR 0xE9] @ ''trica''"

definition assimetrica_direita :: string where
  "assimetrica_direita =
     '' - Assim'' @ [CHR 0xE9] @ ''trica '' @ [CHR 0xE0] @ '' direita ou positiva - ''"

definition assimetrica_esquerda :: string where
  "assimetrica_esquerda =
     '' - Assim'' @ [CHR 0xE9] @ ''trica '' @ [CHR 0xE0] @ '' esquerda ou negativa - ''"

definition mesocurtica :: string where
  "mesocurtica = '' - Mesoc'' @ [CHR 0xFA] @ ''rtica''"

definition platicurtica :: string where
  "platicurtica = '' - Platic'' @ [CHR 0xFA] @ ''rtica''"

definition leptocurtica :: string where
  "leptocurtica = '' - Leptoc'' @ [CHR 0xFA] @ ''rtica''"

text \<open>
  A value of the dictionary that \<open>resumir\<close> returns is a number or a string. Every string
  it builds is an f-string \<open>f'{v}...'\<close>: \<open>Text v s\<close> is the decimal text of the number
  \<open>v\<close> followed by the characters \<open>s\<close>.
\<close>

datatype pyvalue = Number npfloat | Text npfloat string

record resumo =
  media_key :: npfloat
  mediana_key :: npfloat
  moda_key :: "npfloat option"
  desvio_padrao_key :: npfloat
  pearson_key :: pyvalue
  curtose_key :: pyvalue

text \<open>
  The intensity that both asymmetric branches of \<open>resumir\<close> append, written once:
  \<open>"MODERADA" if 0.15 < abs(pearson_value) < 1 else "FORTE"\<close>.
\<close>

definition intensidade :: "npfloat \<Rightarrow> string" where
  "intensidade v =
     (if np_lt (Finite (15 / 100)) (np_abs v) \<and> np_lt (np_abs v) (Finite 1)
      then ''MODERADA'' else ''FORTE'')"

definition resumir :: "real list \<Rightarrow> bool \<Rightarrow> error + resumo" where
  "resumir dados analise =
     (if dados \<noteq> [] then
        (let pearson_value = np_round (coef_pearson dados) 3;
             curtose_value = curtose dados;
             pearson_out =
               (if analise then
                  (if np_eq pearson_value (Finite 0) then Text pearson_value simetrica
                   else if np_gt pearson_value (Finite 0)
                     then Text pearson_value (assimetrica_direita @ intensidade pearson_value)
                   else Text pearson_value (assimetrica_esquerda @ intensidade pearson_value))
                else Number pearson_value);
             curtose_out =
               (if analise then
                  (if np_eq curtose_value (Finite (263 / 1000))
                     then Text curtose_value mesocurtica
                   else if np_gt curtose_value (Finite (263 / 1000))
                     then Text curtose_value platicurtica
                   else Text curtose_value leptocurtica)
                else Number curtose_value)
         in Inr \<lparr> media_key = media dados,
                  mediana_key = mediana dados,
                  moda_key = moda dados,
                  desvio_padrao_key = desvio_padrao dados,
                  pearson_key = pearson_out,
                  curtose_key = curtose_out \<rparr>)
      else Inl NameError)"

section \<open>Reference notions of the specification\<close>

text \<open>
  The definitions of this section follow the words of the specification, not the code; the
  theorems compare the code with them.

  The population standard deviation: the root of the mean squared deviation from the
  arithmetic mean, with the sample count as the denominator.
\<close>

definition spec_mean :: "real list \<Rightarrow> real" where
  "spec_mean xs = sum_list xs / real (length xs)"

text \<open>
  The median: after sorting, the central value of a sample of odd length, the average of
  the two central values of a sample of even length.
\<close>

definition spec_median :: "real list \<Rightarrow> real" where
  "spec_median xs =
     (if odd (length xs) then sort xs ! (length xs div 2)
      else (sort xs ! (length xs div 2 - 1) + sort xs ! (length xs div 2)) / 2)"


definition spec_population_std :: "real list \<Rightarrow> real" where
  "spec_population_std xs =
     sqrt ((\<Sum>x\<leftarrow>xs. (x - spec_mean xs) ^ 2) / real (length xs))"


text \<open>
  The tie-break of the specification for the mode: scan the sample in its given order,
  counting each value as it is met, and take the first value whose running count reaches
  the largest frequency of the sample.
\<close>

definition max_frequency :: "real list \<Rightarrow> nat" where
  "max_frequency xs = fold max (map (count_list xs) xs) 0"

fun first_reaching :: "nat \<Rightarrow> real list \<Rightarrow> real list \<Rightarrow> real option" where
  "first_reaching m seen [] = None"
| "first_reaching m seen (x # rest) =
     (if count_list (x # seen) x = m then Some x else first_reaching m (x # seen) rest)"

definition spec_first_reaching_max :: "real list \<Rightarrow> real option" where
  "spec_first_reaching_max xs = first_reaching (max_frequency xs) [] xs"

text \<open>The sample size of the specification, before the rounding.\<close>

definition spec_n0 :: "real \<Rightarrow> real \<Rightarrow> real \<Rightarrow> real" where
  "spec_n0 confidence p err = confidence ^ 2 * p * (1 - p) / err ^ 2"

text \<open>
  The exact values of the operations of \<open>calculo_amostral\<close>, in the order of evaluation:
  the arithmetic is exact on an input when the rounding leaves each of them as it is and
  none exceeds the largest \<open>float64\<close>.
\<close>

definition exact_steps :: "real \<Rightarrow> real \<Rightarrow> real \<Rightarrow> int \<Rightarrow> real list" where
  "exact_steps confianca p erro N =
     (let c2 = confianca * confianca; t = c2 * p * (1 - p); e2 = erro * erro;
          n0 = t / e2; d = e2 * of_int N; c = t / d
      in [c2, c2 * p, 1 - p, t, e2, n0, of_int N, d, c, 1 + c, n0 / (1 + c)])"

definition exact_on :: "(real \<Rightarrow> real) \<Rightarrow> real list \<Rightarrow> bool" where
  "exact_on fl xs = list_all (\<lambda>x. fl x = x \<and> \<bar>x\<bar> \<le> max_float) xs"

definition spec_sample_size :: "real \<Rightarrow> real \<Rightarrow> real \<Rightarrow> int \<Rightarrow> real" where
  "spec_sample_size confidence p err population =
     spec_n0 confidence p err / (1 + spec_n0 confidence p err / of_int population)"

section \<open>Facts about the library routines\<close>

subsection \<open>Rounding\<close>

lemma round_half_even_of_int [simp]: "round_half_even (of_int k) = k"
  by (simp add: round_half_even_def)

lemma round_half_even_numeral [simp]: "round_half_even (numeral k) = numeral k"
  using round_half_even_of_int[of "numeral k"] by simp

lemma round_half_even_0 [simp]: "round_half_even 0 = 0"
  using round_half_even_of_int[of 0] by simp

lemma round_dec_0 [simp]: "round_dec n 0 = 0"
  by (simp add: round_dec_def)

lemma round_half_even_near: "\<bar>of_int (round_half_even x) - x\<bar> \<le> 1 / 2"
  unfolding round_half_even_def Let_def by (auto; linarith)

lemma round_half_even_eqI:
  "of_int k - 1 / 2 < x \<Longrightarrow> x < of_int k + 1 / 2 \<Longrightarrow> round_half_even x = k"
  using round_half_even_near[of x] by linarith

lemma round_dec_multiple: "\<exists>k::int. round_dec n x = of_int k / 10 ^ n"
  by (auto simp: round_dec_def)

lemma round_dec_near: "\<bar>round_dec n x - x\<bar> \<le> (1 / 2) / 10 ^ n"
proof -
  have "\<bar>round_dec n x - x\<bar> = \<bar>of_int (round_half_even (x * 10 ^ n)) - x * 10 ^ n\<bar> / 10 ^ n"
    by (simp add: round_dec_def field_simps abs_divide flip: abs_mult)
  also have "\<dots> \<le> (1 / 2) / 10 ^ n"
    by (intro divide_right_mono round_half_even_near) simp
  finally show ?thesis .
qed

subsection \<open>Mean, median and deviation of a non-empty sample\<close>

lemma np_mean_nonempty: "a \<noteq> [] \<Longrightarrow> np_mean a = Finite (spec_mean a)"
  by (simp add: np_mean_def spec_mean_def)

lemma np_median_nonempty:
  "a \<noteq> [] \<Longrightarrow> np_median a =
     Finite (if odd (length a) then sort a ! (length a div 2)
             else (sort a ! (length a div 2 - 1) + sort a ! (length a div 2)) / 2)"
  by (simp add: np_median_def Let_def)

lemma sum_sq_nonneg: "0 \<le> (\<Sum>x\<leftarrow>a. (x - m) ^ 2)" for m :: real
  by (rule sum_list_nonneg) auto

lemma np_var_nonempty:
  "a \<noteq> [] \<Longrightarrow> np_var 0 a = Finite ((\<Sum>x\<leftarrow>a. (x - spec_mean a) ^ 2) / real (length a))"
  by (simp add: np_var_def np_mean_nonempty power2_eq_square)

lemma np_std_nonempty: "a \<noteq> [] \<Longrightarrow> np_std 0 a = Finite (spec_population_std a)"
  using sum_sq_nonneg[of "spec_mean a" a]
  by (simp add: np_std_def np_var_nonempty not_less spec_population_std_def)

lemma desvio_padrao_nonempty:
  "a \<noteq> [] \<Longrightarrow> desvio_padrao a = Finite (round_dec 4 (spec_population_std a))"
  by (simp add: desvio_padrao_def np_std_nonempty)

lemma media_nonempty: "a \<noteq> [] \<Longrightarrow> media a = Finite (spec_mean a)"
  by (simp add: media_def np_mean_nonempty)

lemma mediana_nonempty: "a \<noteq> [] \<Longrightarrow> mediana a = Finite (spec_median a)"
  by (simp add: mediana_def np_median_nonempty spec_median_def)

lemma coef_pearson_finite:
  assumes "media a = Finite m" "mediana a = Finite d" "desvio_padrao a = Finite s" "s \<noteq> 0"
  shows "coef_pearson a = Finite (3 * (m - d) / s)"
  using assms by (simp add: coef_pearson_def np_sub_def)

subsection \<open>A symmetric sample\<close>






subsection \<open>The first index of the largest count\<close>

lemma fold_max_Max: "fold max cs (c::nat) = Max (set (c # cs))"
  by (rule Max.set_eq_fold[symmetric])

lemma np_argmax_props:
  "cs \<noteq> [] \<Longrightarrow>
     np_argmax cs < length cs \<and>
     (\<forall>j<length cs. cs ! j \<le> cs ! np_argmax cs) \<and>
     (\<forall>j<np_argmax cs. cs ! j < cs ! np_argmax cs)"
proof (induction cs)
  case Nil
  then show ?case by simp
next
  case (Cons c cs)
  show ?case
  proof (cases "fold max cs c = c")
    case True
    then have "Max (set (c # cs)) = c" by (simp add: fold_max_Max)
    then have "\<forall>d\<in>set (c # cs). d \<le> c"
      by (metis List.finite_set Max_ge)
    then have "\<forall>j<length (c # cs). (c # cs) ! j \<le> c"
      using nth_mem by blast
    with True show ?thesis by simp
  next
    case False
    then have ne: "Max (set (c # cs)) \<noteq> c" by (simp add: fold_max_Max)
    have "Max (set (c # cs)) \<in> set (c # cs)"
      by (rule Max_in) simp_all
    with ne have mem: "Max (set (c # cs)) \<in> set cs" by auto
    then have cs: "cs \<noteq> []" by auto
    have "c \<le> Max (set (c # cs))" by (rule Max_ge) simp_all
    with ne have lt: "c < Max (set (c # cs))" by (metis le_neq_implies_less)
    from mem obtain j where j: "j < length cs" "cs ! j = Max (set (c # cs))"
      by (metis in_set_conv_nth)
    from Cons.IH[OF cs] have ih:
      "np_argmax cs < length cs"
      "\<forall>j<length cs. cs ! j \<le> cs ! np_argmax cs"
      "\<forall>j<np_argmax cs. cs ! j < cs ! np_argmax cs" by auto
    from ih(2) j(1) have "cs ! j \<le> cs ! np_argmax cs" by blast
    with j(2) lt have c_lt: "c < cs ! np_argmax cs" by linarith
    have a: "np_argmax (c # cs) = Suc (np_argmax cs)" using False by simp
    have p2: "\<forall>j<length (c # cs). (c # cs) ! j \<le> (c # cs) ! np_argmax (c # cs)"
    proof (intro allI impI)
      fix k assume "k < length (c # cs)"
      then show "(c # cs) ! k \<le> (c # cs) ! np_argmax (c # cs)"
        using ih(2) c_lt False by (cases k) simp_all
    qed
    have p3: "\<forall>j<np_argmax (c # cs). (c # cs) ! j < (c # cs) ! np_argmax (c # cs)"
    proof (intro allI impI)
      fix k assume "k < np_argmax (c # cs)"
      then show "(c # cs) ! k < (c # cs) ! np_argmax (c # cs)"
        using ih(3) c_lt False by (cases k) simp_all
    qed
    from ih(1) p2 p3 a show ?thesis by (simp only: length_Cons Suc_less_eq simp_thms)
  qed
qed

subsection \<open>What the mode routine returns\<close>

lemma st_mode_props:
  assumes "a \<noteq> []"
  shows "\<exists>v. st_mode a = (Finite v, count_list a v) \<and> v \<in> set a \<and>
           (\<forall>u. count_list a u \<le> count_list a v) \<and>
           (\<forall>u. count_list a u = count_list a v \<longrightarrow> v \<le> u)"
proof -
  define vals where "vals = sort (remdups a)"
  define cnts where "cnts = map (count_list a) vals"
  define i where "i = np_argmax cnts"
  have set_vals: "set vals = set a" and srt: "sorted vals" and len: "length cnts = length vals"
    by (simp_all add: vals_def cnts_def)
  from assms set_vals have "vals \<noteq> []" by auto
  then have "cnts \<noteq> []" by (simp add: cnts_def)
  from np_argmax_props[OF this] have
    i_lt: "i < length vals" and
    i_max: "\<forall>j<length vals. cnts ! j \<le> cnts ! i" and
    i_first: "\<forall>j<i. cnts ! j < cnts ! i"
    by (simp_all add: i_def len)
  have cnt_nth: "cnts ! j = count_list a (vals ! j)" if "j < length vals" for j
    using that by (simp add: cnts_def)
  have v_in: "vals ! i \<in> set a" using i_lt set_vals nth_mem by blast
  then have pos: "0 < count_list a (vals ! i)" by (metis count_list_0_iff gr0I)
  have mode: "st_mode a = (Finite (vals ! i), count_list a (vals ! i))"
    using assms i_lt by (simp add: st_mode_def np_unique_def Let_def vals_def[symmetric]
        cnts_def[symmetric] i_def[symmetric] cnt_nth)
  have most: "count_list a u \<le> count_list a (vals ! i)" for u
  proof (cases "u \<in> set a")
    case True
    then obtain j where "j < length vals" "vals ! j = u"
      using set_vals by (metis in_set_conv_nth)
    then show ?thesis using i_max cnt_nth i_lt by metis
  next
    case False
    then show ?thesis by (simp add: count_list_0_iff)
  qed
  have least: "vals ! i \<le> u" if eq: "count_list a u = count_list a (vals ! i)" for u
  proof -
    from eq pos have "u \<in> set a" by (metis count_list_0_iff less_numeral_extra(3))
    then obtain j where j: "j < length vals" "vals ! j = u"
      using set_vals by (metis in_set_conv_nth)
    have "\<not> j < i"
    proof
      assume "j < i"
      with i_first have "cnts ! j < cnts ! i" by simp
      then show False using cnt_nth[OF j(1)] cnt_nth[OF i_lt] j(2) eq by simp
    qed
    then have "i \<le> j" by simp
    then show ?thesis using srt j sorted_nth_mono by blast
  qed
  from mode v_in most least show ?thesis by blast
qed

lemma distinct_count_le1: "distinct xs \<longleftrightarrow> (\<forall>x. count_list xs x \<le> 1)"
proof (induction xs)
  case Nil
  show ?case by simp
next
  case (Cons a xs)
  show ?case
  proof
    assume d: "distinct (a # xs)"
    then have "\<forall>x. count_list xs x \<le> 1" and "count_list xs a = 0"
      using Cons.IH by simp_all
    then show "\<forall>x. count_list (a # xs) x \<le> 1" by simp
  next
    assume c: "\<forall>x. count_list (a # xs) x \<le> 1"
    then have "count_list (a # xs) a \<le> 1" by blast
    then have a: "a \<notin> set xs" by (simp add: count_list_0_iff)
    have "count_list xs x \<le> 1" for x
      using c[rule_format, of x] by (simp split: if_splits)
    with a Cons.IH show "distinct (a # xs)" by simp
  qed
qed

lemma max_frequency_ge: "count_list xs u \<le> max_frequency xs"
proof (cases "u \<in> set xs")
  case True
  then have "count_list xs u \<in> set (0 # map (count_list xs) xs)" by simp
  then have "count_list xs u \<le> Max (set (0 # map (count_list xs) xs))"
    by (intro Max_ge) simp_all
  then show ?thesis by (simp only: max_frequency_def fold_max_Max)
next
  case False
  then show ?thesis by simp
qed

subsection \<open>A sample of identical values\<close>









subsection \<open>Two samples evaluated\<close>

lemma std_six: "spec_population_std [2, 0, 3, 2, 6, 5] = 2"
  by (simp add: spec_population_std_def spec_mean_def)

lemma media_six: "media [2, 0, 3, 2, 6, 5] = Finite 3"
  by (simp add: media_def np_mean_def)

lemma mediana_six: "mediana [2, 0, 3, 2, 6, 5] = Finite (5 / 2)"
  by (simp add: mediana_def np_median_def)

lemma desvio_six: "desvio_padrao [2, 0, 3, 2, 6, 5] = Finite 2"
  by (simp add: desvio_padrao_nonempty std_six round_dec_def)

lemma pearson_six: "coef_pearson [2, 0, 3, 2, 6, 5] = Finite (3 / 4)"
  using coef_pearson_finite[OF media_six mediana_six desvio_six] by simp

lemma round_six: "round_dec 3 (3 / 4) = 3 / 4"
  by (simp add: round_dec_def)

lemma curtose_six: "curtose [2, 0, 3, 2, 6, 5] = Finite (1875 / 1000)"
  by (simp add: curtose_def st_kurtosis_def np_mean_def moment_def round_dec_def
      round_half_even_def float_eps_def Let_def power2_eq_square)

lemma sqrt2_round: "round_dec 4 (sqrt 2) = 14142 / 10000"
proof -
  have "(141415 / 100000) ^ 2 < (2::real)" by (simp add: power2_eq_square)
  then have lo: "141415 / 100000 < sqrt 2" by (rule real_less_rsqrt)
  have "(2::real) < (141425 / 100000) ^ 2" by (simp add: power2_eq_square)
  then have hi: "sqrt 2 < 141425 / 100000" by (intro real_less_lsqrt) simp_all
  have "round_half_even (sqrt 2 * 10 ^ 4) = 14142"
    using lo hi by (intro round_half_even_eqI) simp_all
  then show ?thesis by (simp add: round_dec_def)
qed

lemma std_five: "desvio_padrao [1, 2, 3, 4, 5] = Finite (14142 / 10000)"
  by (simp add: desvio_padrao_nonempty spec_population_std_def spec_mean_def sqrt2_round)

lemma mediana_five: "mediana [1, 2, 3, 4, 5] = Finite 3"
  by (simp add: mediana_def np_median_def)

lemma media_five: "media [1, 2, 3, 4, 5] = Finite 3"
  by (simp add: media_def np_mean_def)

lemma pearson_five: "coef_pearson [1, 2, 3, 4, 5] = Finite 0"
  using coef_pearson_finite[OF media_five mediana_five std_five] by simp





lemma std_skew: "spec_population_std [0, 0, 3, 8, 8] = 18 / 5"
proof -
  have "spec_population_std [0, 0, 3, 8, 8] = sqrt (324 / 25)"
    by (simp add: spec_population_std_def spec_mean_def power2_eq_square)
  also have "sqrt (324 / 25) = 18 / 5"
    by (rule real_sqrt_unique) (simp_all add: power2_eq_square)
  finally show ?thesis .
qed

lemma desvio_skew: "desvio_padrao [0, 0, 3, 8, 8] = Finite (18 / 5)"
  by (simp add: desvio_padrao_nonempty std_skew round_dec_def)

lemma media_skew: "media [0, 0, 3, 8, 8] = Finite (19 / 5)"
  by (simp add: media_def np_mean_def)

lemma mediana_skew: "mediana [0, 0, 3, 8, 8] = Finite 3"
  by (simp add: mediana_def np_median_def)

lemma pearson_skew: "coef_pearson [0, 0, 3, 8, 8] = Finite (2 / 3)"
  using coef_pearson_finite[OF media_skew mediana_skew desvio_skew] by simp

lemma round_skew: "round_dec 3 (2 / 3) = 667 / 1000"
proof -
  have "round_half_even (2 / 3 * 10 ^ 3) = 667"
    by (intro round_half_even_eqI) simp_all
  then show ?thesis by (simp add: round_dec_def)
qed

lemma curtose_near_constant: "curtose [1, 1 + 1 / 2 ^ 52] = NaN"
  by (simp add: curtose_def st_kurtosis_def np_mean_def moment_def float_eps_def Let_def
      power2_eq_square)



lemma std_nonneg: "0 \<le> spec_population_std a"
  using sum_sq_nonneg[of "spec_mean a" a] by (simp add: spec_population_std_def)



subsection \<open>The operations of the sample size\<close>

lemma rounded_zero: "fl 0 = 0 \<Longrightarrow> rounded fl 0 = Finite 0"
  by (simp add: rounded_def max_float_def)

lemma dividendo_cases:
  "dividendo fl c p =
     (if max_float < \<bar>fl (c * c)\<bar> then Inl OverflowError
      else Inr (py_mul fl (py_mul fl (Finite (fl (c * c))) (Finite p)) (py_sub fl (Finite 1) (Finite p))))"
  by (simp add: dividendo_def py_pow2_def bind_err_def Let_def)

lemma max_float_pos: "0 < max_float"
  by (simp add: max_float_def)

lemma rounded_exact: "fl x = x \<Longrightarrow> \<bar>x\<bar> \<le> max_float \<Longrightarrow> rounded fl x = Finite x"
  by (auto simp: rounded_def Let_def)

lemma py_pow2_exact:
  "fl (x * x) = x * x \<Longrightarrow> \<bar>x * x\<bar> \<le> max_float \<Longrightarrow> py_pow2 fl x = Inr (Finite (x * x))"
  by (simp add: py_pow2_def Let_def)

lemma py_float_of_int_exact:
  "fl (of_int n) = of_int n \<Longrightarrow> \<bar>of_int n :: real\<bar> \<le> max_float \<Longrightarrow>
     py_float_of_int fl n = Inr (Finite (of_int n))"
  by (simp add: py_float_of_int_def Let_def)

lemma calculo_amostral_exact:
  assumes e: "erro \<noteq> 0" and n: "N \<noteq> 0"
    and d: "1 + spec_n0 confianca p erro / of_int N \<noteq> 0"
    and x: "exact_on fl (exact_steps confianca p erro N)"
  shows "calculo_amostral fl confianca p erro N =
           Inr (round_half_even (spec_sample_size confianca p erro N))"
proof -
  define c2 where "c2 = confianca * confianca"
  define t where "t = c2 * p * (1 - p)"
  define e2 where "e2 = erro * erro"
  define n0 where "n0 = t / e2"
  define dd where "dd = e2 * of_int N"
  define c where "c = t / dd"
  have st: "exact_steps confianca p erro N =
      [c2, c2 * p, 1 - p, t, e2, n0, of_int N, dd, c, 1 + c, n0 / (1 + c)]"
    by (simp add: exact_steps_def Let_def c2_def t_def e2_def n0_def dd_def c_def)
  have ex: "rounded fl v = Finite v" "fl v = v" "\<bar>v\<bar> \<le> max_float"
    if "v \<in> set [c2, c2 * p, 1 - p, t, e2, n0, of_int N, dd, c, 1 + c, n0 / (1 + c)]" for v
    using x that unfolding st exact_on_def list_all_iff by (auto intro: rounded_exact)
  have n0_eq: "n0 = spec_n0 confianca p erro"
    by (simp add: n0_def t_def c2_def e2_def spec_n0_def power2_eq_square)
  have c_eq: "c = spec_n0 confianca p erro / of_int N"
    by (simp add: c_def dd_def n0_eq[symmetric] n0_def)
  have e2_nz: "e2 \<noteq> 0" using e by (simp add: e2_def)
  have dd_nz: "dd \<noteq> 0" using e2_nz n by (simp add: dd_def)
  have s_nz: "1 + c \<noteq> 0" using d by (simp add: c_eq)
  have p1: "py_pow2 fl confianca = Inr (Finite c2)"
    unfolding c2_def using ex(2)[of c2] ex(3)[of c2] by (intro py_pow2_exact) (simp_all add: c2_def)
  have p2: "py_pow2 fl erro = Inr (Finite e2)"
    unfolding e2_def using ex(2)[of e2] ex(3)[of e2] by (intro py_pow2_exact) (simp_all add: e2_def)
  have p3: "dividendo fl confianca p = Inr (Finite t)"
    using ex(1)[of "c2 * p"] ex(1)[of "1 - p"] ex(1)[of t]
    by (simp add: dividendo_def p1 bind_err_def t_def)
  have p4: "py_truediv fl (Finite t) (Finite e2) = Inr (Finite n0)"
    using ex(1)[of n0] e2_nz by (simp add: py_truediv_def n0_def)
  have p5: "py_float_of_int fl N = Inr (Finite (of_int N))"
    using ex(2)[of "of_int N"] ex(3)[of "of_int N"] by (intro py_float_of_int_exact) simp_all
  have p6: "rounded fl (e2 * of_int N) = Finite dd"
    using ex(1)[of dd] by (simp add: dd_def)
  have p7: "py_truediv fl (Finite t) (Finite dd) = Inr (Finite c)"
    using ex(1)[of c] dd_nz by (simp add: py_truediv_def c_def)
  have p8: "rounded fl (1 + c) = Finite (1 + c)"
    using ex(1)[of "1 + c"] by simp
  have p9: "py_truediv fl (Finite n0) (Finite (1 + c)) = Inr (Finite (n0 / (1 + c)))"
    using ex(1)[of "n0 / (1 + c)"] s_nz by (simp add: py_truediv_def)
  have "calculo_amostral fl confianca p erro N = Inr (round_half_even (n0 / (1 + c)))"
    by (simp add: calculo_amostral_def p2 p3 p4 p5 p6 p7 p8 p9 bind_err_def)
  then show ?thesis
    by (simp add: spec_sample_size_def n0_eq c_eq)
qed

lemma calculo_amostral_population_zero:
  assumes "fl 0 = 0"
  shows "calculo_amostral fl confianca p erro 0 =
      (if max_float < \<bar>fl (confianca * confianca)\<bar> \<or> max_float < \<bar>fl (erro * erro)\<bar>
       then Inl OverflowError else Inl ZeroDivisionError)"
proof -
  have z: "py_float_of_int fl 0 = Inr (Finite 0)"
    using assms max_float_pos by (simp add: py_float_of_int_def)
  have m: "rounded fl 0 = Finite 0"
    using assms max_float_pos by (simp add: rounded_def)
  show ?thesis
    by (simp add: calculo_amostral_def dividendo_cases py_pow2_def py_truediv_def bind_err_def
        Let_def z m)
qed

section \<open>The claims\<close>

subsection \<open>The empty sample\<close>

text \<open>
  C2. On the empty sample \<open>resumir\<close> raises (a \<open>NameError\<close>, the error the method uses for
  a missing sample) whatever the flag \<open>analise\<close> is: the result is the error alone, no
  record with any field is returned.
\<close>

theorem resumir_empty_raises: "resumir [] analise = Inl NameError"
  by (simp add: resumir_def)

subsection \<open>A constant sample\<close>




subsection \<open>The asymmetry label\<close>

text \<open>
  C3. For a non-empty sample whose rounded standard deviation is not 0, the Pearson
  coefficient is a finite number and its rounding to 3 decimals a number \<open>v\<close>, a multiple of
  \<open>0.001\<close> no further than \<open>0.0005\<close> from the coefficient. \<open>resumir\<close> with \<open>analise\<close> set
  gives the text of \<open>v\<close> followed by: the symmetric label when \<open>v = 0\<close>; the right
  (positive) label when \<open>v > 0\<close> and the left (negative) label when \<open>v < 0\<close>, each followed
  by \<open>MODERADA\<close> exactly when \<open>0.15 < |v| < 1\<close> and by \<open>FORTE\<close> otherwise. So the intensity
  of 0.1 is \<open>FORTE\<close>, of 0.5 \<open>MODERADA\<close>, of 2.0 \<open>FORTE\<close>.
\<close>

theorem pearson_classification:
  assumes "dados \<noteq> []" and "desvio_padrao dados \<noteq> Finite 0"
  shows "(\<exists>c v k r. coef_pearson dados = Finite c \<and>
           np_round (coef_pearson dados) 3 = Finite v \<and>
           v = of_int k / 10 ^ 3 \<and> \<bar>v - c\<bar> \<le> 5 / 10 ^ 4 \<and>
           resumir dados True = Inr r \<and>
           pearson_key r =
             Text (Finite v)
               (if v = 0 then simetrica
                else (if 0 < v then assimetrica_direita else assimetrica_esquerda) @
                     (if 15 / 100 < \<bar>v\<bar> \<and> \<bar>v\<bar> < 1 then ''MODERADA'' else ''FORTE''))) \<and>
         intensidade (Finite (1 / 10)) = ''FORTE'' \<and>
         intensidade (Finite (1 / 2)) = ''MODERADA'' \<and>
         intensidade (Finite 2) = ''FORTE''"
proof -
  have d: "mediana dados = Finite (spec_median dados)" by (rule mediana_nonempty[OF assms(1)])
  have m: "media dados = Finite (spec_mean dados)" by (rule media_nonempty[OF assms(1)])
  have s: "desvio_padrao dados = Finite (round_dec 4 (spec_population_std dados))"
    "round_dec 4 (spec_population_std dados) \<noteq> 0"
    using desvio_padrao_nonempty[OF assms(1)] assms(2) by auto
  define c where
    "c = 3 * (spec_mean dados - spec_median dados) / round_dec 4 (spec_population_std dados)"
  define v where "v = round_dec 3 c"
  have pc: "coef_pearson dados = Finite c"
    by (simp add: coef_pearson_finite[OF m d s] c_def)
  have p: "np_round (coef_pearson dados) 3 = Finite v"
    by (simp add: pc v_def)
  obtain k :: int where k: "v = of_int k / 10 ^ 3"
    unfolding v_def using round_dec_multiple by blast
  have n: "\<bar>v - c\<bar> \<le> 5 / 10 ^ 4"
    unfolding v_def using round_dec_near[of 3 c] by simp
  have i: "intensidade (Finite (1 / 10)) = ''FORTE''"
    "intensidade (Finite (1 / 2)) = ''MODERADA''" "intensidade (Finite 2) = ''FORTE''"
    by (simp_all add: intensidade_def)
  obtain r where r: "resumir dados True = Inr r" "pearson_key r =
             Text (Finite v)
               (if v = 0 then simetrica
                else (if 0 < v then assimetrica_direita else assimetrica_esquerda) @
                     (if 15 / 100 < \<bar>v\<bar> \<and> \<bar>v\<bar> < 1 then ''MODERADA'' else ''FORTE''))"
    using assms(1) by (simp add: p resumir_def Let_def np_gt_def intensidade_def)
  from pc p k n r i show ?thesis by blast
qed

theorem pearson_classification_witness:
  "[0, 0, 3, 8, 8] \<noteq> ([] :: real list) \<and> desvio_padrao [0, 0, 3, 8, 8] \<noteq> Finite 0 \<and>
   coef_pearson [0, 0, 3, 8, 8] = Finite (2 / 3) \<and>
   (\<exists>r. resumir [0, 0, 3, 8, 8] True = Inr r \<and>
        pearson_key r = Text (Finite (667 / 1000)) (assimetrica_direita @ ''MODERADA''))"
  using pearson_classification[of "[0, 0, 3, 8, 8]"]
  by (auto simp: desvio_skew pearson_skew round_skew)

subsection \<open>The kurtosis and its label\<close>




subsection \<open>The mode\<close>

text \<open>
  C5. On a non-empty sample in which no value occurs twice \<open>moda\<close> returns \<open>None\<close>, no
  number. On a sample in which some value repeats it returns a value of the sample that
  occurs more than once and at least as often as any other value.
\<close>

theorem moda_spec:
  "(xs \<noteq> [] \<and> distinct xs \<longrightarrow> moda xs = None) \<and>
   (\<not> distinct xs \<longrightarrow>
      (\<exists>v. moda xs = Some (Finite v) \<and> v \<in> set xs \<and> 1 < count_list xs v \<and>
           (\<forall>u. count_list xs u \<le> count_list xs v)))"
proof (intro conjI impI)
  assume h: "xs \<noteq> [] \<and> distinct xs"
  then obtain v where v: "st_mode xs = (Finite v, count_list xs v)" "v \<in> set xs"
    using st_mode_props[of xs] by blast
  from h have "count_list xs v \<le> 1" by (simp add: distinct_count_le1)
  moreover from v(2) have "count_list xs v \<noteq> 0" by (simp add: count_list_0_iff)
  ultimately have "count_list xs v = 1" by simp
  with v(1) show "moda xs = None" by (simp add: moda_def)
next
  assume nd: "\<not> distinct xs"
  then have ne: "xs \<noteq> []" by auto
  from st_mode_props[OF ne] obtain v where v:
    "st_mode xs = (Finite v, count_list xs v)" "v \<in> set xs"
    "\<forall>u. count_list xs u \<le> count_list xs v" by blast
  from nd obtain u where u: "1 < count_list xs u"
    by (metis distinct_count_le1 not_le)
  with v(3) have "1 < count_list xs v" by (metis less_le_trans)
  with v show "\<exists>v. moda xs = Some (Finite v) \<and> v \<in> set xs \<and> 1 < count_list xs v \<and>
           (\<forall>u. count_list xs u \<le> count_list xs v)"
    by (auto simp: moda_def)
qed

theorem moda_spec_witness:
  "moda [1, 2, 3] = None \<and> moda [1, 2, 2, 3, 4] = Some (Finite 2)"
proof -
  from moda_spec[of "[1, 2, 3]"] have a: "moda [1, 2, 3] = None" by simp
  from moda_spec[of "[1, 2, 2, 3, 4]"] obtain v where
    v: "moda [1, 2, 2, 3, 4] = Some (Finite v)" "1 < count_list [1, 2, 2, 3, 4] v" by auto
  from v(2) have "v = 2" by (simp split: if_splits)
  with a v(1) show ?thesis by simp
qed

text \<open>
  C6, as the code has it. When two different values both occur with the largest frequency
  of the sample, and that frequency exceeds 1, \<open>moda\<close> returns the smallest of the values
  that occur with the largest frequency, wherever they stand in the sample.
\<close>

theorem moda_tie_smallest:
  assumes "v \<noteq> w"
    and "count_list xs v = max_frequency xs" and "count_list xs w = max_frequency xs"
    and "1 < max_frequency xs"
  shows "moda xs = Some (Finite (Min {u. count_list xs u = max_frequency xs}))"
proof -
  from assms(2,4) have "xs \<noteq> []" by auto
  from st_mode_props[OF this] obtain m where m:
    "st_mode xs = (Finite m, count_list xs m)" "m \<in> set xs"
    "\<forall>u. count_list xs u \<le> count_list xs m"
    "\<forall>u. count_list xs u = count_list xs m \<longrightarrow> m \<le> u" by blast
  from m(3) assms(2) max_frequency_ge[of xs m] have cm: "count_list xs m = max_frequency xs"
    by (metis le_antisym)
  have sub: "{u. count_list xs u = max_frequency xs} \<subseteq> set xs"
  proof
    fix u assume "u \<in> {u. count_list xs u = max_frequency xs}"
    with assms(4) have "count_list xs u \<noteq> 0" by simp
    then show "u \<in> set xs" by (simp add: count_list_0_iff)
  qed
  then have fin: "finite {u. count_list xs u = max_frequency xs}"
    by (rule finite_subset) simp
  have "Min {u. count_list xs u = max_frequency xs} = m"
    using fin m(4) cm by (intro Min_eqI) auto
  with m(1) cm assms(4) show ?thesis by (simp add: moda_def)
qed

theorem moda_tie_smallest_witness:
  "moda [2, 2, 1, 1] = Some (Finite (Min {u. count_list [2, 2, 1, 1] u = max_frequency [2, 2, 1, 1]}))
   \<and> (2::real) \<noteq> 1 \<and> count_list [2, 2, 1, 1] (2::real) = max_frequency [2, 2, 1, 1]
   \<and> count_list [2, 2, 1, 1] (1::real) = max_frequency [2, 2, 1, 1]
   \<and> 1 < max_frequency [2, 2, 1, 1]"
  using moda_tie_smallest[of 2 1 "[2, 2, 1, 1]"] by (simp add: max_frequency_def)

text \<open>
  The claim as written asks for the first value that reaches the largest frequency in a scan
  of the sample. In 2, 2, 1, 1 that value is 2; \<open>moda\<close> returns 1.
\<close>

theorem moda_tie_counterexample:
  "moda [2, 2, 1, 1] = Some (Finite 1) \<and> spec_first_reaching_max [2, 2, 1, 1] = Some 2"
  by (simp add: moda_def st_mode_def np_unique_def spec_first_reaching_max_def max_frequency_def)

subsection \<open>The standard deviation\<close>



subsection \<open>The Pearson coefficient\<close>



subsection \<open>The sample size\<close>

text \<open>
  C9, as the code has it. \<open>calculo_amostral\<close> evaluates
  \<open>round(n0 / (1 + n0 / N))\<close>, \<open>n0 = confianca\<^sup>2 p (1 - p) / erro\<^sup>2\<close>, in float arithmetic.
  With \<open>erro = 0\<close> it raises \<open>ZeroDivisionError\<close>, unless \<open>confianca ** 2\<close> overflows:
  then \<open>OverflowError\<close> is raised first. With \<open>N = 0\<close> it raises \<open>ZeroDivisionError\<close>,
  unless \<open>confianca ** 2\<close> or \<open>erro ** 2\<close> overflows. When \<open>erro\<close>, \<open>N\<close> and
  \<open>1 + n0 / N\<close> are not 0 and the arithmetic is exact on the input (no operation rounds
  or overflows), it returns the exact value of the formula rounded to the nearest integer,
  a tie to the even one.
\<close>

theorem calculo_amostral_errors:
  assumes "fl 0 = 0"
  shows "(erro = 0 \<longrightarrow>
            calculo_amostral fl confianca p erro N =
              (if max_float < \<bar>fl (confianca * confianca)\<bar> then Inl OverflowError
               else Inl ZeroDivisionError)) \<and>
         (N = 0 \<longrightarrow>
            calculo_amostral fl confianca p erro N =
              (if max_float < \<bar>fl (confianca * confianca)\<bar> \<or> max_float < \<bar>fl (erro * erro)\<bar>
               then Inl OverflowError else Inl ZeroDivisionError)) \<and>
         (erro \<noteq> 0 \<and> N \<noteq> 0 \<and> 1 + spec_n0 confianca p erro / of_int N \<noteq> 0 \<and>
          exact_on fl (exact_steps confianca p erro N) \<longrightarrow>
            calculo_amostral fl confianca p erro N =
              Inr (round_half_even (spec_sample_size confianca p erro N)))"
proof (intro conjI impI)
  assume "erro = 0"
  then show "calculo_amostral fl confianca p erro N =
      (if max_float < \<bar>fl (confianca * confianca)\<bar> then Inl OverflowError
       else Inl ZeroDivisionError)"
    using assms
    by (simp add: calculo_amostral_def dividendo_cases py_pow2_def py_truediv_def bind_err_def
        max_float_def[symmetric])
       (simp add: max_float_def)
next
  assume "N = 0"
  then show "calculo_amostral fl confianca p erro N =
      (if max_float < \<bar>fl (confianca * confianca)\<bar> \<or> max_float < \<bar>fl (erro * erro)\<bar>
       then Inl OverflowError else Inl ZeroDivisionError)"
    using calculo_amostral_population_zero[of fl, OF assms] by simp
next
  assume h: "erro \<noteq> 0 \<and> N \<noteq> 0 \<and> 1 + spec_n0 confianca p erro / of_int N \<noteq> 0 \<and>
          exact_on fl (exact_steps confianca p erro N)"
  then show "calculo_amostral fl confianca p erro N =
              Inr (round_half_even (spec_sample_size confianca p erro N))"
    by (intro calculo_amostral_exact) simp_all
qed

theorem calculo_amostral_errors_witness:
  "calculo_amostral (\<lambda>x. x) 2 (1 / 2) 0 1000 = Inl ZeroDivisionError \<and>
   calculo_amostral (\<lambda>x. x) 2 (1 / 2) (1 / 4) 0 = Inl ZeroDivisionError \<and>
   exact_on (\<lambda>x. x) (exact_steps 2 (1 / 2) (1 / 4) 5) \<and>
   spec_sample_size 2 (1 / 2) (1 / 4) 5 = 80 / 21 \<and>
   calculo_amostral (\<lambda>x. x) 2 (1 / 2) (1 / 4) 5 = Inr 4"
proof -
  have m: "(4::real) \<le> max_float" "(16::real) \<le> max_float"
    by (simp_all add: max_float_def)
  have n0: "spec_n0 2 (1 / 2) (1 / 4) = 16"
    by (simp add: spec_n0_def power2_eq_square)
  have v: "spec_sample_size 2 (1 / 2) (1 / 4) 5 = 80 / 21"
    unfolding spec_sample_size_def n0 by simp
  have r: "round_half_even (80 / 21) = 4"
    by (intro round_half_even_eqI) simp_all
  have x: "exact_on (\<lambda>x. x) (exact_steps 2 (1 / 2) (1 / 4) 5)"
    by (simp add: exact_on_def exact_steps_def Let_def max_float_def)
  have a: "calculo_amostral (\<lambda>x. x) 2 (1 / 2) 0 1000 = Inl ZeroDivisionError"
    using calculo_amostral_errors[of "\<lambda>x. x" 0 2 "1 / 2" 1000, THEN conjunct1] m by simp
  have b: "calculo_amostral (\<lambda>x. x) 2 (1 / 2) (1 / 4) 0 = Inl ZeroDivisionError"
    using calculo_amostral_errors[of "\<lambda>x. x" "1 / 4" 2 "1 / 2" 0, THEN conjunct2, THEN conjunct1]
      m max_float_pos by simp
  have c: "calculo_amostral (\<lambda>x. x) 2 (1 / 2) (1 / 4) 5 = Inr 4"
    using calculo_amostral_errors[of "\<lambda>x. x" "1 / 4" 2 "1 / 2" 5, THEN conjunct2, THEN conjunct2]
      x by (simp add: n0 v r)
  from a b c x v show ?thesis by simp
qed

text \<open>
  The claim as written asks for a division-by-zero failure with \<open>erro = 0\<close> whatever the
  other arguments are. With \<open>confianca = 1e200\<close> the square overflows, and the error raised
  is \<open>OverflowError\<close>.
\<close>

theorem calculo_amostral_overflow_counterexample:
  "calculo_amostral (\<lambda>x. x) (10 ^ 200) (1 / 2) 0 1000 = Inl OverflowError"
proof -
  have "(2::real) ^ 1024 < 10 ^ 400" by simp
  moreover have "max_float \<le> 2 ^ 1024" by (simp add: max_float_def)
  ultimately have "max_float < \<bar>(10::real) ^ 200 * 10 ^ 200\<bar>"
    by (simp add: power_add[symmetric])
  then show ?thesis
    by (simp add: calculo_amostral_def dividendo_def py_pow2_def bind_err_def Let_def)
qed

subsection \<open>What the flag of resumir leaves alone\<close>

text \<open>
  C10. When \<open>resumir\<close> returns on a sample with the flag \<open>analise\<close> set and with it
  cleared, the two records have the same \<open>media\<close>, \<open>mediana\<close>, \<open>moda\<close> and
  \<open>desvio_padrao\<close> entries: the flag reaches the \<open>pearson\<close> and \<open>curtose\<close> entries only.
\<close>

theorem resumir_frame:
  assumes "resumir dados True = Inr r1" and "resumir dados False = Inr r2"
  shows "media_key r1 = media_key r2 \<and> mediana_key r1 = mediana_key r2 \<and>
         moda_key r1 = moda_key r2 \<and> desvio_padrao_key r1 = desvio_padrao_key r2"
  using assms by (auto simp: resumir_def Let_def split: if_splits)

theorem resumir_frame_witness:
  "\<exists>r1 r2. resumir [2, 0, 3, 2, 6, 5] True = Inr r1 \<and> resumir [2, 0, 3, 2, 6, 5] False = Inr r2 \<and>
      media_key r1 = media_key r2 \<and> mediana_key r1 = mediana_key r2 \<and>
      moda_key r1 = moda_key r2 \<and> desvio_padrao_key r1 = desvio_padrao_key r2"
proof -
  obtain r1 where r1: "resumir [2, 0, 3, 2, 6, 5] True = Inr r1"
    by (simp add: resumir_def Let_def)
  obtain r2 where r2: "resumir [2, 0, 3, 2, 6, 5] False = Inr r2"
    by (simp add: resumir_def Let_def)
  from resumir_frame[OF r1 r2] r1 r2 show ?thesis by blast
qed

end
